theory Spec2Isabelle
  imports Complex_Main "HOL-Library.Word" "HOL-Library.Multiset"
begin

section \<open>Collaborators of the point-to-point device\<close>

text \<open>
  The device of \<^verbatim>\<open>src/devices/p2p/p2p-net-device.cc\<close> calls into classes whose
  code lives elsewhere (\<^verbatim>\<open>Packet\<close>, \<^verbatim>\<open>Queue\<close>, \<^verbatim>\<open>DataRate\<close>, \<^verbatim>\<open>Time\<close>,
  \<^verbatim>\<open>PointToPointChannel\<close>, \<^verbatim>\<open>Simulator\<close>, the \<^verbatim>\<open>NetDevice\<close> base class).
  Each of them is given here by the contract the specification states for it.
\<close>

text \<open>Modelled from the spec: \<^verbatim>\<open>Time\<close> is missing; durations and instants are
  real-valued seconds, and \<^verbatim>\<open>Seconds\<close> builds a \<^verbatim>\<open>Time\<close> from a number of seconds.\<close>

type_synonym Time = real

definition Seconds :: "real \<Rightarrow> Time" where
  "Seconds s = s"

text \<open>Modelled from the spec: \<^verbatim>\<open>DataRate\<close> is missing; it is a number of bits per
  second and \<^verbatim>\<open>tx_time(bytes) = 8 * bytes / rate\<close>, a real-valued duration.
  (For a rate of zero HOL's division gives 0; no statement below depends on the
  value of the quotient.)\<close>

type_synonym DataRate = nat

definition CalculateTxTime :: "DataRate \<Rightarrow> nat \<Rightarrow> real" where
  "CalculateTxTime bps bytes = 8 * real bytes / real bps"

text \<open>Modelled from the spec: \<^verbatim>\<open>Packet\<close> is missing; a packet carries a unique
  64-bit identifier and a size in bytes.\<close>

record Packet =
  p_uid :: "64 word"
  p_size :: nat

definition GetSize :: "Packet \<Rightarrow> nat" where
  "GetSize p = p_size p"

type_synonym MacAddress = "8 word list"

text \<open>Modelled from the spec: \<^verbatim>\<open>Queue\<close> is missing; it is an ordered sequence of
  packets with a maximum length (\<open>None\<close>: unbounded). Enqueue on a full queue reports
  failure and drops the packet (drop-tail); dequeue returns the front packet and fails
  iff the queue is empty.\<close>

record Queue =
  q_packets :: "Packet list"
  q_maxPackets :: "nat option"

definition Queue_IsFull :: "Queue \<Rightarrow> bool" where
  "Queue_IsFull q =
     (case q_maxPackets q of None \<Rightarrow> False | Some n \<Rightarrow> n \<le> length (q_packets q))"

definition Enqueue :: "Queue \<Rightarrow> Packet \<Rightarrow> bool \<times> Queue" where
  "Enqueue q p =
     (if Queue_IsFull q then (False, q)
      else (True, q\<lparr>q_packets := q_packets q @ [p]\<rparr>))"

definition Dequeue :: "Queue \<Rightarrow> Packet option \<times> Queue" where
  "Dequeue q =
     (case q_packets q of
        [] \<Rightarrow> (None, q)
      | p # ps \<Rightarrow> (Some p, q\<lparr>q_packets := ps\<rparr>))"

text \<open>Modelled from the spec: \<^verbatim>\<open>PointToPointChannel\<close> is missing; it holds one
  DataRate, one propagation delay and the number of attached endpoints (0, 1 or 2).
  \<^verbatim>\<open>Attach\<close> succeeds until two endpoints are attached.\<close>

record PointToPointChannel =
  ch_bps :: DataRate
  ch_delay :: Time
  ch_nDevices :: nat

definition Channel_Attach :: "PointToPointChannel \<Rightarrow> PointToPointChannel" where
  "Channel_Attach ch =
     (if ch_nDevices ch < 2 then ch\<lparr>ch_nDevices := ch_nDevices ch + 1\<rparr> else ch)"

definition GetDataRate :: "PointToPointChannel \<Rightarrow> DataRate" where
  "GetDataRate ch = ch_bps ch"

definition GetDelay :: "PointToPointChannel \<Rightarrow> Time" where
  "GetDelay ch = ch_delay ch"

section \<open>The device and the simulator state it runs in\<close>

datatype TxMachineState = READY | BUSY

text \<open>
  The fields of \<^verbatim>\<open>PointToPointNetDevice\<close>. The two smart pointers \<^verbatim>\<open>m_channel\<close>
  and \<^verbatim>\<open>m_queue\<close> are optional values, \<open>None\<close> being the null pointer the
  constructor stores; the queue and the channel are held by value, as no other holder
  of them is part of the model. \<open>m_isUp\<close> is the link flag of the \<^verbatim>\<open>NetDevice\<close>
  base class.
\<close>

record PointToPointNetDevice =
  m_isUp :: bool
  m_txMachineState :: TxMachineState
  m_bps :: DataRate
  m_tInterframeGap :: Time
  m_channel :: "PointToPointChannel option"
  m_queue :: "Queue option"

text \<open>Modelled from the spec: the \<^verbatim>\<open>NetDevice\<close> base class is missing; the device
  has a link-up flag, \<^verbatim>\<open>IsLinkUp\<close> reads it and \<^verbatim>\<open>NotifyLinkUp\<close> sets it.\<close>

definition IsLinkUp :: "PointToPointNetDevice \<Rightarrow> bool" where
  "IsLinkUp d = m_isUp d"

definition NotifyLinkUp :: "PointToPointNetDevice \<Rightarrow> PointToPointNetDevice" where
  "NotifyLinkUp d = d\<lparr>m_isUp := True\<rparr>"

text \<open>The events the simulator holds for this link: the device's own
  \<^verbatim>\<open>TransmitComplete\<close> callback, and the delivery of a packet to the peer device
  that the channel schedules.\<close>

datatype Event = TransmitCompleteEvent | ReceiveEvent Packet

record Simulation =
  dev :: PointToPointNetDevice
  sim_now :: Time
  sim_events :: "(Time \<times> Event) list"

text \<open>Modelled from the spec: the simulator kernel is missing;
  \<^verbatim>\<open>schedule(delay, callback)\<close> fires the callback at \<^verbatim>\<open>now() + delay\<close>, and
  events at identical virtual times execute in insertion order. The pending events are
  kept in firing order.\<close>

fun Simulator_insert :: "Time \<times> Event \<Rightarrow> (Time \<times> Event) list \<Rightarrow> (Time \<times> Event) list" where
  "Simulator_insert e [] = [e]"
| "Simulator_insert e (x # xs) =
     (if fst e < fst x then e # x # xs else x # Simulator_insert e xs)"

definition Simulator_Schedule :: "Time \<Rightarrow> Event \<Rightarrow> Simulation \<Rightarrow> Simulation" where
  "Simulator_Schedule delay ev w =
     w\<lparr>sim_events := Simulator_insert (sim_now w + delay, ev) (sim_events w)\<rparr>"

text \<open>Modelled from the spec: the channel's \<^verbatim>\<open>TransmitStart(packet, sender)\<close>
  schedules delivery to the non-sender endpoint at \<^verbatim>\<open>now + delay\<close> and returns true
  iff a peer is attached.\<close>

definition Channel_TransmitStart ::
    "PointToPointChannel \<Rightarrow> Packet \<Rightarrow> Simulation \<Rightarrow> bool \<times> Simulation" where
  "Channel_TransmitStart ch p w =
     (if ch_nDevices ch = 2
      then (True, Simulator_Schedule (ch_delay ch) (ReceiveEvent p) w)
      else (False, w))"

text \<open>How a call can end without returning: a failed \<^verbatim>\<open>NS_ASSERT\<close> aborts the
  simulation (the three assertions of the file are told apart), and a call through a null
  pointer does not return either.\<close>

datatype error =
    AssertLinkUp
  | AssertMustBeReady
  | AssertMustBeBusy
  | NullPointer

section \<open>The methods of PointToPointNetDevice\<close>

definition PointToPointNetDevice_new :: "DataRate \<Rightarrow> PointToPointNetDevice" where
  "PointToPointNetDevice_new rate =
     \<lparr>m_isUp = False, m_txMachineState = READY, m_bps = rate,
      m_tInterframeGap = Seconds 0, m_channel = None, m_queue = None\<rparr>"

definition SetDataRate :: "DataRate \<Rightarrow> Simulation \<Rightarrow> Simulation" where
  "SetDataRate bps w = w\<lparr>dev := (dev w)\<lparr>m_bps := bps\<rparr>\<rparr>"

definition SetInterframeGap :: "Time \<Rightarrow> Simulation \<Rightarrow> Simulation" where
  "SetInterframeGap t w = w\<lparr>dev := (dev w)\<lparr>m_tInterframeGap := t\<rparr>\<rparr>"

definition TransmitStart :: "Packet \<Rightarrow> Simulation \<Rightarrow> error + (bool \<times> Simulation)" where
  "TransmitStart p w =
     (if m_txMachineState (dev w) \<noteq> READY then Inl AssertMustBeReady
      else
        let w1 = w\<lparr>dev := (dev w)\<lparr>m_txMachineState := BUSY\<rparr>\<rparr>;
            txCompleteTime =
              Seconds (CalculateTxTime (m_bps (dev w1)) (GetSize p))
                + m_tInterframeGap (dev w1);
            w2 = Simulator_Schedule txCompleteTime TransmitCompleteEvent w1
        in case m_channel (dev w2) of
             None \<Rightarrow> Inl NullPointer
           | Some ch \<Rightarrow> Inr (Channel_TransmitStart ch p w2))"

definition TransmitComplete :: "Simulation \<Rightarrow> error + Simulation" where
  "TransmitComplete w =
     (if m_txMachineState (dev w) \<noteq> BUSY then Inl AssertMustBeBusy
      else
        let w1 = w\<lparr>dev := (dev w)\<lparr>m_txMachineState := READY\<rparr>\<rparr>
        in case m_queue (dev w1) of
             None \<Rightarrow> Inl NullPointer
           | Some q \<Rightarrow>
               (case Dequeue q of
                  (None, q') \<Rightarrow> Inr (w1\<lparr>dev := (dev w1)\<lparr>m_queue := Some q'\<rparr>\<rparr>)
                | (Some p, q') \<Rightarrow>
                    (case TransmitStart p (w1\<lparr>dev := (dev w1)\<lparr>m_queue := Some q'\<rparr>\<rparr>) of
                       Inl e \<Rightarrow> Inl e
                     | Inr (r, w2) \<Rightarrow> Inr w2)))"

definition SendTo :: "Packet \<Rightarrow> MacAddress \<Rightarrow> Simulation \<Rightarrow> error + (bool \<times> Simulation)" where
  "SendTo p dest w =
     (if \<not> IsLinkUp (dev w) then Inl AssertLinkUp
      else if m_txMachineState (dev w) = READY then TransmitStart p w
      else
        case m_queue (dev w) of
          None \<Rightarrow> Inl NullPointer
        | Some q \<Rightarrow>
            (case Enqueue q p of
               (r, q') \<Rightarrow> Inr (r, w\<lparr>dev := (dev w)\<lparr>m_queue := Some q'\<rparr>\<rparr>)))"

definition Attach :: "PointToPointChannel option \<Rightarrow> Simulation \<Rightarrow> error + (bool \<times> Simulation)" where
  "Attach ch w =
     (case ch of
        None \<Rightarrow> Inl NullPointer
      | Some c \<Rightarrow>
          let c' = Channel_Attach c;
              d1 = (dev w)\<lparr>m_channel := Some c'\<rparr>;
              d2 = d1\<lparr>m_bps := GetDataRate c'\<rparr>;
              d3 = d2\<lparr>m_tInterframeGap := GetDelay c'\<rparr>;
              d4 = NotifyLinkUp d3
          in Inr (True, w\<lparr>dev := d4\<rparr>))"

definition AddQueue :: "Queue option \<Rightarrow> Simulation \<Rightarrow> Simulation" where
  "AddQueue q w = w\<lparr>dev := (dev w)\<lparr>m_queue := q\<rparr>\<rparr>"

section \<open>Runs of one device under the simulator\<close>

text \<open>A freshly constructed device at virtual time 0 with nothing scheduled.\<close>

definition Simulation_init :: "DataRate \<Rightarrow> Simulation" where
  "Simulation_init rate =
     \<lparr>dev = PointToPointNetDevice_new rate, sim_now = 0, sim_events = []\<rparr>"

text \<open>Modelled from the spec: the simulator kernel is missing; it runs the first
  pending event: the clock moves to the event's time and the callback is invoked. A
  \<open>ReceiveEvent\<close> is the peer device's \<^verbatim>\<open>Receive\<close>, which touches no field of this
  device.\<close>

definition Simulator_RunOneEvent :: "Simulation \<Rightarrow> error + Simulation" where
  "Simulator_RunOneEvent w =
     (case sim_events w of
        [] \<Rightarrow> Inr w
      | (t, ev) # rest \<Rightarrow>
          let w1 = w\<lparr>sim_now := t, sim_events := rest\<rparr>
          in case ev of
               TransmitCompleteEvent \<Rightarrow> TransmitComplete w1
             | ReceiveEvent p \<Rightarrow> Inr w1)"

text \<open>What can happen to the device between two quiescent states: one of its public
  methods is called, or the simulator fires the next scheduled callback.\<close>

datatype Call =
    CallSetDataRate DataRate
  | CallSetInterframeGap Time
  | CallAttach "PointToPointChannel option"
  | CallAddQueue "Queue option"
  | CallSendTo Packet MacAddress
  | RunOneEvent

fun step :: "Call \<Rightarrow> Simulation \<Rightarrow> error + Simulation" where
  "step (CallSetDataRate bps) w = Inr (SetDataRate bps w)"
| "step (CallSetInterframeGap t) w = Inr (SetInterframeGap t w)"
| "step (CallAttach ch) w =
     (case Attach ch w of Inl e \<Rightarrow> Inl e | Inr (r, w') \<Rightarrow> Inr w')"
| "step (CallAddQueue q) w = Inr (AddQueue q w)"
| "step (CallSendTo p dest) w =
     (case SendTo p dest w of Inl e \<Rightarrow> Inl e | Inr (r, w') \<Rightarrow> Inr w')"
| "step RunOneEvent w = Simulator_RunOneEvent w"

fun exec :: "Call list \<Rightarrow> Simulation \<Rightarrow> error + Simulation" where
  "exec [] w = Inr w"
| "exec (c # cs) w = (case step c w of Inl e \<Rightarrow> Inl e | Inr w' \<Rightarrow> exec cs w')"

text \<open>The number of \<^verbatim>\<open>TransmitComplete\<close> callbacks scheduled and not yet fired.\<close>

definition pendingTransmitComplete :: "Simulation \<Rightarrow> nat" where
  "pendingTransmitComplete w =
     length (filter (\<lambda>e. snd e = TransmitCompleteEvent) (sim_events w))"

text \<open>The two invariants of the transmitter state machine: a completion callback is
  pending exactly while the transmitter is BUSY, and a READY transmitter has nothing
  queued (no queue at all, or an empty one).\<close>

definition transmitCompleteInv :: "Simulation \<Rightarrow> bool" where
  "transmitCompleteInv w =
     (pendingTransmitComplete w = (if m_txMachineState (dev w) = BUSY then 1 else 0))"

definition queueEmptyWhenReady :: "Simulation \<Rightarrow> bool" where
  "queueEmptyWhenReady w =
     (m_txMachineState (dev w) = READY \<longrightarrow>
        (case m_queue (dev w) of None \<Rightarrow> True | Some q \<Rightarrow> q_packets q = []))"

text \<open>Calls that install no packets: every call except an \<^verbatim>\<open>AddQueue\<close> that hands the
  device a queue which already holds packets.\<close>

fun addsEmptyQueue :: "Call \<Rightarrow> bool" where
  "addsEmptyQueue (CallAddQueue (Some q)) = (q_packets q = [])"
| "addsEmptyQueue _ = True"

fun isAddQueue :: "Call \<Rightarrow> bool" where
  "isAddQueue (CallAddQueue q) = True"
| "isAddQueue _ = False"

section \<open>Router identifiers\<close>

text \<open>Modelled from the spec: \<^verbatim>\<open>RoutingEnvironment::AllocateRouterId\<close> and the
  constructor of \<^verbatim>\<open>GlobalRouter\<close> are missing (the header only declares
  \<^verbatim>\<open>GetRouterId\<close> and documents the allocation). The environment holds a
  process-wide counter seeded at \<open>0.0.0.1\<close>; each router constructed takes the current
  value as its 32-bit Router ID and the counter is incremented by one. An
  \<^verbatim>\<open>Ipv4Address\<close> is its 32-bit value, so \<open>0.0.0.1\<close> is the word \<open>1\<close>.\<close>

type_synonym Ipv4Address = "32 word"

record RoutingEnvironment =
  routerId :: "32 word"

definition RoutingEnvironment_init :: RoutingEnvironment where
  "RoutingEnvironment_init = \<lparr>routerId = 1\<rparr>"

definition AllocateRouterId :: "RoutingEnvironment \<Rightarrow> 32 word \<times> RoutingEnvironment" where
  "AllocateRouterId env = (routerId env, env\<lparr>routerId := routerId env + 1\<rparr>)"

record GlobalRouter =
  m_routerId :: Ipv4Address

definition GlobalRouter_new :: "RoutingEnvironment \<Rightarrow> GlobalRouter \<times> RoutingEnvironment" where
  "GlobalRouter_new env =
     (case AllocateRouterId env of (rid, env') \<Rightarrow> (\<lparr>m_routerId = rid\<rparr>, env'))"

definition GetRouterId :: "GlobalRouter \<Rightarrow> Ipv4Address" where
  "GetRouterId r = m_routerId r"

text \<open>Constructing \<open>n\<close> routers one after the other.\<close>

fun createRouters :: "nat \<Rightarrow> RoutingEnvironment \<Rightarrow> GlobalRouter list \<times> RoutingEnvironment" where
  "createRouters 0 env = ([], env)"
| "createRouters (Suc n) env =
     (case GlobalRouter_new env of
        (r, env1) \<Rightarrow> (case createRouters n env1 of (rs, env2) \<Rightarrow> (r # rs, env2)))"

section \<open>Scenario data\<close>

text \<open>The link of the specification's scenarios: 10 Mb/s, 2 ms of propagation delay,
  1250-byte packets, a queue of capacity 1. \<open>ex_channel n\<close> is that channel with
  \<open>n\<close> endpoints attached; \<open>ex_sim\<close> is a device attached to it (so its interframe
  gap holds the channel's delay) at virtual time 0.\<close>

abbreviation ex_packet :: "nat \<Rightarrow> Packet" where
  "ex_packet n \<equiv> \<lparr>p_uid = of_nat n, p_size = 1250\<rparr>"

abbreviation ex_dest :: MacAddress where
  "ex_dest \<equiv> [255, 255, 255, 255, 255, 255]"

abbreviation ex_channel :: "nat \<Rightarrow> PointToPointChannel" where
  "ex_channel n \<equiv> \<lparr>ch_bps = 10000000, ch_delay = 2 / 1000, ch_nDevices = n\<rparr>"

abbreviation ex_queue :: "Packet list \<Rightarrow> Queue" where
  "ex_queue ps \<equiv> \<lparr>q_packets = ps, q_maxPackets = Some 1\<rparr>"

abbreviation ex_sim ::
    "TxMachineState \<Rightarrow> PointToPointChannel option \<Rightarrow> Queue option \<Rightarrow> (Time \<times> Event) list
      \<Rightarrow> Simulation" where
  "ex_sim st ch q evs \<equiv>
     \<lparr>dev = \<lparr>m_isUp = True, m_txMachineState = st, m_bps = 10000000,
             m_tInterframeGap = 2 / 1000, m_channel = ch, m_queue = q\<rparr>,
      sim_now = 0, sim_events = evs\<rparr>"

abbreviation ex_calls :: "Call list" where
  "ex_calls \<equiv>
     [CallAddQueue (Some (ex_queue [])), CallAttach (Some (ex_channel 1)),
      CallSendTo (ex_packet 1) ex_dest, CallSendTo (ex_packet 2) ex_dest,
      CallSendTo (ex_packet 3) ex_dest]"

section \<open>Basic facts about the methods\<close>

lemmas model_defs =
  Simulation_init_def PointToPointNetDevice_new_def AddQueue_def Attach_def Let_def
  Channel_Attach_def GetDataRate_def GetDelay_def NotifyLinkUp_def IsLinkUp_def SendTo_def
  TransmitStart_def TransmitComplete_def Channel_TransmitStart_def Simulator_Schedule_def
  Simulator_RunOneEvent_def Seconds_def CalculateTxTime_def GetSize_def Enqueue_def
  Dequeue_def Queue_IsFull_def SetDataRate_def SetInterframeGap_def

lemma mset_Simulator_insert: "mset (Simulator_insert e xs) = add_mset e (mset xs)"
  by (induction xs) auto

lemma pending_Simulator_insert:
  "length (filter (\<lambda>e. snd e = TransmitCompleteEvent) (Simulator_insert e xs)) =
   length (filter (\<lambda>e. snd e = TransmitCompleteEvent) xs)
     + (if snd e = TransmitCompleteEvent then 1 else 0)"
  by (induction xs) auto

lemma TransmitStart_READY:
  assumes "m_txMachineState (dev w) = READY" and "m_channel (dev w) = Some ch"
  shows "TransmitStart p w =
     Inr (Channel_TransmitStart ch p
       (Simulator_Schedule
          (Seconds (CalculateTxTime (m_bps (dev w)) (GetSize p)) + m_tInterframeGap (dev w))
          TransmitCompleteEvent
          (w\<lparr>dev := (dev w)\<lparr>m_txMachineState := BUSY\<rparr>\<rparr>)))"
  using assms by (simp add: TransmitStart_def Let_def Simulator_Schedule_def)

lemma TransmitStart_BUSY:
  "m_txMachineState (dev w) = BUSY \<Longrightarrow> TransmitStart p w = Inl AssertMustBeReady"
  by (simp add: TransmitStart_def)

lemma TransmitStart_null_channel:
  "m_txMachineState (dev w) = READY \<Longrightarrow> m_channel (dev w) = None \<Longrightarrow>
   TransmitStart p w = Inl NullPointer"
  by (simp add: TransmitStart_def Let_def Simulator_Schedule_def)

lemma TransmitStart_READY_not_assert:
  "m_txMachineState (dev w) = READY \<Longrightarrow> TransmitStart p w \<noteq> Inl AssertMustBeReady"
  by (simp add: TransmitStart_def Let_def split: option.splits)

lemma TransmitStart_not_AssertLinkUp: "TransmitStart p w \<noteq> Inl AssertLinkUp"
  by (simp add: TransmitStart_def Let_def split: option.splits)

lemma TransmitStart_Inr:
  assumes "TransmitStart p w = Inr (r, w')"
  shows "m_txMachineState (dev w) = READY"
    and "dev w' = (dev w)\<lparr>m_txMachineState := BUSY\<rparr>"
    and "sim_now w' = sim_now w"
    and "pendingTransmitComplete w' = Suc (pendingTransmitComplete w)"
  using assms
  by (auto simp add: TransmitStart_def Let_def Channel_TransmitStart_def
      Simulator_Schedule_def pendingTransmitComplete_def pending_Simulator_insert
      split: if_splits option.splits)

lemma SendTo_READY:
  "IsLinkUp (dev w) \<Longrightarrow> m_txMachineState (dev w) = READY \<Longrightarrow>
   SendTo p dest w = TransmitStart p w"
  by (simp add: SendTo_def)

lemma SendTo_BUSY:
  "IsLinkUp (dev w) \<Longrightarrow> m_txMachineState (dev w) = BUSY \<Longrightarrow> m_queue (dev w) = Some q \<Longrightarrow>
   SendTo p dest w =
     Inr (fst (Enqueue q p), w\<lparr>dev := (dev w)\<lparr>m_queue := Some (snd (Enqueue q p))\<rparr>\<rparr>)"
  by (simp add: SendTo_def split: prod.splits)

lemma SendTo_not_AssertMustBeReady: "SendTo p dest w \<noteq> Inl AssertMustBeReady"
proof (cases "m_txMachineState (dev w)")
  case READY
  then show ?thesis
    using TransmitStart_READY_not_assert[OF READY, of p] by (simp add: SendTo_def)
next
  case BUSY
  then show ?thesis by (simp add: SendTo_def split: option.splits prod.splits)
qed

lemma TransmitComplete_empty:
  assumes "m_txMachineState (dev w) = BUSY" and "m_queue (dev w) = Some q"
    and "q_packets q = []"
  shows "TransmitComplete w = Inr (w\<lparr>dev := (dev w)\<lparr>m_txMachineState := READY\<rparr>\<rparr>)"
proof -
  have "(dev w)\<lparr>m_txMachineState := READY, m_queue := Some q\<rparr>
      = (dev w)\<lparr>m_txMachineState := READY\<rparr>"
    using assms(2) by simp
  then show ?thesis
    using assms by (simp add: TransmitComplete_def Let_def Dequeue_def)
qed

lemma TransmitComplete_nonempty:
  assumes "m_txMachineState (dev w) = BUSY" and "m_queue (dev w) = Some q"
    and "q_packets q = p # ps"
  shows "TransmitComplete w =
     map_sum id snd
       (TransmitStart p
          (w\<lparr>dev := (dev w)\<lparr>m_txMachineState := READY,
                              m_queue := Some (q\<lparr>q_packets := ps\<rparr>)\<rparr>\<rparr>))"
  using assms
  by (simp add: TransmitComplete_def Let_def Dequeue_def split: sum.splits prod.splits)

lemma TransmitComplete_null_queue:
  "m_txMachineState (dev w) = BUSY \<Longrightarrow> m_queue (dev w) = None \<Longrightarrow>
   TransmitComplete w = Inl NullPointer"
  by (simp add: TransmitComplete_def Let_def)

lemma TransmitComplete_Inr_busy:
  "TransmitComplete w = Inr w' \<Longrightarrow> m_txMachineState (dev w) = BUSY"
  by (simp add: TransmitComplete_def split: if_splits)

lemma TransmitComplete_Inr_cases:
  assumes "TransmitComplete w = Inr w'"
  obtains (empty) q where "m_queue (dev w) = Some q" and "q_packets q = []"
      and "w' = w\<lparr>dev := (dev w)\<lparr>m_txMachineState := READY\<rparr>\<rparr>"
    | (nonempty) q p ps r where "m_queue (dev w) = Some q" and "q_packets q = p # ps"
      and "TransmitStart p
             (w\<lparr>dev := (dev w)\<lparr>m_txMachineState := READY,
                                 m_queue := Some (q\<lparr>q_packets := ps\<rparr>)\<rparr>\<rparr>) = Inr (r, w')"
proof -
  have busy: "m_txMachineState (dev w) = BUSY"
    using assms by (rule TransmitComplete_Inr_busy)
  obtain q where q: "m_queue (dev w) = Some q"
    using assms busy by (cases "m_queue (dev w)") (simp_all add: TransmitComplete_def Let_def)
  show ?thesis
  proof (cases "q_packets q")
    case Nil
    then have "w' = w\<lparr>dev := (dev w)\<lparr>m_txMachineState := READY\<rparr>\<rparr>"
      using assms TransmitComplete_empty[OF busy q] by simp
    with q Nil show ?thesis by (rule empty)
  next
    case (Cons p ps)
    let ?w1 = "w\<lparr>dev := (dev w)\<lparr>m_txMachineState := READY,
                                  m_queue := Some (q\<lparr>q_packets := ps\<rparr>)\<rparr>\<rparr>"
    have eq: "map_sum id snd (TransmitStart p ?w1) = Inr w'"
      using assms by (simp only: TransmitComplete_nonempty[OF busy q Cons])
    obtain r where "TransmitStart p ?w1 = Inr (r, w')"
    proof (cases "TransmitStart p ?w1")
      case (Inl e)
      with eq show ?thesis by simp
    next
      case (Inr x)
      with eq that show ?thesis by (cases x) simp
    qed
    with q Cons show ?thesis by (rule nonempty)
  qed
qed

lemma TransmitComplete_Inr_pending:
  assumes "TransmitComplete w = Inr w'"
  shows "pendingTransmitComplete w' =
           pendingTransmitComplete w + (if m_txMachineState (dev w') = BUSY then 1 else 0)"
  using assms
proof (cases rule: TransmitComplete_Inr_cases)
  case (empty q)
  then show ?thesis by (simp add: pendingTransmitComplete_def)
next
  case (nonempty q p ps r)
  from TransmitStart_Inr(2,4)[OF nonempty(3)] show ?thesis
    by (simp add: pendingTransmitComplete_def)
qed

lemma TransmitComplete_not_AssertMustBeReady: "TransmitComplete w \<noteq> Inl AssertMustBeReady"
proof (cases "m_txMachineState (dev w)")
  case READY
  then show ?thesis by (simp add: TransmitComplete_def)
next
  case BUSY
  show ?thesis
  proof (cases "m_queue (dev w)")
    case None
    with BUSY show ?thesis by (simp add: TransmitComplete_def Let_def)
  next
    case (Some q)
    show ?thesis
    proof (cases "q_packets q")
      case Nil
      then show ?thesis using TransmitComplete_empty[OF BUSY Some] by simp
    next
      case (Cons p ps)
      let ?w1 = "w\<lparr>dev := (dev w)\<lparr>m_txMachineState := READY,
                                    m_queue := Some (q\<lparr>q_packets := ps\<rparr>)\<rparr>\<rparr>"
      have "TransmitStart p ?w1 \<noteq> Inl AssertMustBeReady"
        by (rule TransmitStart_READY_not_assert) simp
      then show ?thesis
        unfolding TransmitComplete_nonempty[OF BUSY Some Cons]
        by (cases "TransmitStart p ?w1") simp_all
    qed
  qed
qed

lemma Attach_None: "Attach None w = Inl NullPointer"
  by (simp add: Attach_def)

lemma Attach_Some:
  "Attach (Some c) w =
     Inr (True,
          w\<lparr>dev := (dev w)\<lparr>m_channel := Some (Channel_Attach c),
                              m_bps := GetDataRate (Channel_Attach c),
                              m_tInterframeGap := GetDelay (Channel_Attach c),
                              m_isUp := True\<rparr>\<rparr>)"
  by (simp add: Attach_def Let_def NotifyLinkUp_def)

section \<open>Attach\<close>

text \<open>
  Claim C1. For every channel \<open>ch\<close>, \<^verbatim>\<open>Attach(ch)\<close> records the channel (with
  this device now counted among its endpoints) as the device's channel, copies the
  channel's DataRate into \<open>m_bps\<close> and the channel's propagation delay into the device's
  local field \<open>m_tInterframeGap\<close>, marks the link up and returns true. The transmitter
  state, the queue and the simulator are left as they were.
\<close>

theorem Attach_records_channel:
  "\<exists>w'. Attach (Some ch) w = Inr (True, w')
      \<and> m_channel (dev w') = Some (Channel_Attach ch)
      \<and> m_bps (dev w') = GetDataRate ch
      \<and> m_tInterframeGap (dev w') = GetDelay ch
      \<and> IsLinkUp (dev w')
      \<and> m_txMachineState (dev w') = m_txMachineState (dev w)
      \<and> m_queue (dev w') = m_queue (dev w)
      \<and> sim_now w' = sim_now w \<and> sim_events w' = sim_events w"
  by (simp add: Attach_def Let_def NotifyLinkUp_def IsLinkUp_def GetDataRate_def
      GetDelay_def Channel_Attach_def)

section \<open>Starting a transmission\<close>

text \<open>
  Claim C2. For every packet \<open>p\<close>, \<^verbatim>\<open>TransmitStart(p)\<close> on a READY device with
  a channel returns, and adds to the pending events exactly one \<^verbatim>\<open>TransmitComplete\<close>
  callback, at time \<open>now + txTime + interframeGap\<close>, where
  \<open>txTime = CalculateTxTime m_bps (GetSize p)\<close> is computed from the data rate and the
  interframe gap the device holds at the call. The clock does not move.
\<close>

theorem TransmitStart_schedules_completion:
  assumes "m_txMachineState (dev w) = READY" and "m_channel (dev w) = Some ch"
  shows "\<exists>r w'. TransmitStart p w = Inr (r, w')
      \<and> sim_now w' = sim_now w
      \<and> mset (filter (\<lambda>e. snd e = TransmitCompleteEvent) (sim_events w')) =
          add_mset
            (sim_now w + CalculateTxTime (m_bps (dev w)) (GetSize p) + m_tInterframeGap (dev w),
             TransmitCompleteEvent)
            (mset (filter (\<lambda>e. snd e = TransmitCompleteEvent) (sim_events w)))"
  using assms
  by (auto simp add: TransmitStart_READY Channel_TransmitStart_def Simulator_Schedule_def
      Seconds_def mset_Simulator_insert add.assoc)

text \<open>An attached device at time 0 sends 1250 bytes at 10 Mb/s with a gap of 2 ms: the
  completion fires at 3 ms.\<close>

theorem TransmitStart_schedules_completion_witness:
  "m_txMachineState (dev (ex_sim READY (Some (ex_channel 2)) (Some (ex_queue [])) [])) = READY
   \<and> m_channel (dev (ex_sim READY (Some (ex_channel 2)) (Some (ex_queue [])) []))
        = Some (ex_channel 2)
   \<and> (\<exists>r w'. TransmitStart (ex_packet 1)
                 (ex_sim READY (Some (ex_channel 2)) (Some (ex_queue [])) []) = Inr (r, w')
          \<and> sim_now w' = 0
          \<and> mset (filter (\<lambda>e. snd e = TransmitCompleteEvent) (sim_events w'))
               = {#(3 / 1000, TransmitCompleteEvent)#})"
  using TransmitStart_schedules_completion
    [of "ex_sim READY (Some (ex_channel 2)) (Some (ex_queue [])) []" "ex_channel 2" "ex_packet 1"]
  by (simp add: CalculateTxTime_def GetSize_def)

text \<open>
  Claim C9. \<^verbatim>\<open>TransmitStart(p)\<close> sets the state to BUSY and schedules the completion
  before it asks the channel. So when the channel's \<^verbatim>\<open>TransmitStart\<close> returns false
  (no peer attached), \<^verbatim>\<open>TransmitStart\<close> and a \<^verbatim>\<open>SendTo\<close> on the link that is up
  return false, and yet the device is BUSY with its \<^verbatim>\<open>TransmitComplete\<close> callback
  pending at \<open>now + txTime + interframeGap\<close>; nothing else has changed.
\<close>

theorem TransmitStart_busy_even_if_channel_fails:
  assumes "m_txMachineState (dev w) = READY" and "m_channel (dev w) = Some ch"
    and "\<not> fst (Channel_TransmitStart ch p
            (Simulator_Schedule
               (Seconds (CalculateTxTime (m_bps (dev w)) (GetSize p)) + m_tInterframeGap (dev w))
               TransmitCompleteEvent
               (w\<lparr>dev := (dev w)\<lparr>m_txMachineState := BUSY\<rparr>\<rparr>)))"
  shows "\<exists>w'. TransmitStart p w = Inr (False, w')
      \<and> (IsLinkUp (dev w) \<longrightarrow> SendTo p dest w = Inr (False, w'))
      \<and> dev w' = (dev w)\<lparr>m_txMachineState := BUSY\<rparr>
      \<and> sim_now w' = sim_now w
      \<and> sim_events w' =
          Simulator_insert
            (sim_now w + CalculateTxTime (m_bps (dev w)) (GetSize p) + m_tInterframeGap (dev w),
             TransmitCompleteEvent)
            (sim_events w)"
proof -
  let ?w2 = "Simulator_Schedule
               (Seconds (CalculateTxTime (m_bps (dev w)) (GetSize p)) + m_tInterframeGap (dev w))
               TransmitCompleteEvent
               (w\<lparr>dev := (dev w)\<lparr>m_txMachineState := BUSY\<rparr>\<rparr>)"
  have ts: "TransmitStart p w = Inr (Channel_TransmitStart ch p ?w2)"
    by (rule TransmitStart_READY[OF assms(1,2)])
  have ch: "Channel_TransmitStart ch p ?w2 = (False, ?w2)"
    using assms(3) by (simp add: Channel_TransmitStart_def split: if_splits)
  have "TransmitStart p w = Inr (False, ?w2)"
    by (simp only: ts ch)
  moreover have "IsLinkUp (dev w) \<longrightarrow> SendTo p dest w = Inr (False, ?w2)"
    using assms(1) by (simp add: SendTo_READY ts ch)
  moreover have "dev ?w2 = (dev w)\<lparr>m_txMachineState := BUSY\<rparr>" and "sim_now ?w2 = sim_now w"
    by (simp_all add: Simulator_Schedule_def)
  moreover have "sim_events ?w2 =
      Simulator_insert
        (sim_now w + CalculateTxTime (m_bps (dev w)) (GetSize p) + m_tInterframeGap (dev w),
         TransmitCompleteEvent)
        (sim_events w)"
    by (simp add: Simulator_Schedule_def Seconds_def add.assoc)
  ultimately show ?thesis by blast
qed

text \<open>The channel has this device as its only endpoint.\<close>

theorem TransmitStart_busy_even_if_channel_fails_witness:
  "m_txMachineState (dev (ex_sim READY (Some (ex_channel 1)) (Some (ex_queue [])) [])) = READY
   \<and> \<not> fst (Channel_TransmitStart (ex_channel 1) (ex_packet 1)
            (ex_sim BUSY (Some (ex_channel 1)) (Some (ex_queue []))
               [(3 / 1000, TransmitCompleteEvent)]))
   \<and> TransmitStart (ex_packet 1) (ex_sim READY (Some (ex_channel 1)) (Some (ex_queue [])) [])
       = Inr (False, ex_sim BUSY (Some (ex_channel 1)) (Some (ex_queue []))
                       [(3 / 1000, TransmitCompleteEvent)])
   \<and> SendTo (ex_packet 1) ex_dest (ex_sim READY (Some (ex_channel 1)) (Some (ex_queue [])) [])
       = Inr (False, ex_sim BUSY (Some (ex_channel 1)) (Some (ex_queue []))
                       [(3 / 1000, TransmitCompleteEvent)])"
  using
    TransmitStart_busy_even_if_channel_fails
      [of "ex_sim READY (Some (ex_channel 1)) (Some (ex_queue [])) []" "ex_channel 1"
          "ex_packet 1" ex_dest]
  by (simp add: model_defs)

section \<open>SendTo\<close>

text \<open>
  Claim C3. With the link up and a queue present: a \<^verbatim>\<open>SendTo\<close> in state READY is the
  call \<^verbatim>\<open>TransmitStart(p)\<close>, and with a channel attached it returns what the channel's
  \<^verbatim>\<open>TransmitStart\<close> returns; a \<^verbatim>\<open>SendTo\<close> in state BUSY returns the result of the
  queue's \<^verbatim>\<open>Enqueue\<close> and changes nothing but the queue (the transmitter state stays
  BUSY): false with the queue unchanged when the queue is full, true with \<open>p\<close> appended
  otherwise.
\<close>

theorem SendTo_ready_or_busy:
  assumes "IsLinkUp (dev w)" and "m_queue (dev w) = Some q"
  shows "(m_txMachineState (dev w) = READY \<longrightarrow>
            SendTo p dest w = TransmitStart p w
          \<and> (\<forall>ch. m_channel (dev w) = Some ch \<longrightarrow>
                SendTo p dest w =
                  Inr (Channel_TransmitStart ch p
                    (Simulator_Schedule
                      (Seconds (CalculateTxTime (m_bps (dev w)) (GetSize p))
                         + m_tInterframeGap (dev w))
                      TransmitCompleteEvent
                      (w\<lparr>dev := (dev w)\<lparr>m_txMachineState := BUSY\<rparr>\<rparr>)))))
       \<and> (m_txMachineState (dev w) = BUSY \<longrightarrow>
            SendTo p dest w =
              Inr (fst (Enqueue q p),
                   w\<lparr>dev := (dev w)\<lparr>m_queue := Some (snd (Enqueue q p))\<rparr>\<rparr>)
          \<and> (Queue_IsFull q \<longrightarrow> Enqueue q p = (False, q))
          \<and> (\<not> Queue_IsFull q \<longrightarrow>
                Enqueue q p = (True, q\<lparr>q_packets := q_packets q @ [p]\<rparr>)))"
proof (intro conjI impI allI)
  assume "m_txMachineState (dev w) = READY"
  then show "SendTo p dest w = TransmitStart p w"
    using assms(1) by (rule SendTo_READY[rotated])
next
  fix ch
  assume "m_txMachineState (dev w) = READY" and "m_channel (dev w) = Some ch"
  then show "SendTo p dest w =
      Inr (Channel_TransmitStart ch p
        (Simulator_Schedule
          (Seconds (CalculateTxTime (m_bps (dev w)) (GetSize p)) + m_tInterframeGap (dev w))
          TransmitCompleteEvent
          (w\<lparr>dev := (dev w)\<lparr>m_txMachineState := BUSY\<rparr>\<rparr>)))"
    using assms(1) by (simp add: SendTo_READY TransmitStart_READY)
next
  assume busy: "m_txMachineState (dev w) = BUSY"
  show "SendTo p dest w =
      Inr (fst (Enqueue q p), w\<lparr>dev := (dev w)\<lparr>m_queue := Some (snd (Enqueue q p))\<rparr>\<rparr>)"
    by (rule SendTo_BUSY[OF assms(1) busy assms(2)])
next
  assume "Queue_IsFull q"
  then show "Enqueue q p = (False, q)" by (simp add: Enqueue_def)
next
  assume "\<not> Queue_IsFull q"
  then show "Enqueue q p = (True, q\<lparr>q_packets := q_packets q @ [p]\<rparr>)"
    by (simp add: Enqueue_def)
qed

text \<open>A READY device transmits; a BUSY device with an empty queue of capacity 1 enqueues;
  a BUSY device whose queue is full drops the packet and returns false.\<close>

theorem SendTo_ready_or_busy_witness:
  "IsLinkUp (dev (ex_sim READY (Some (ex_channel 2)) (Some (ex_queue [])) []))
   \<and> SendTo (ex_packet 1) ex_dest (ex_sim READY (Some (ex_channel 2)) (Some (ex_queue [])) [])
       = TransmitStart (ex_packet 1) (ex_sim READY (Some (ex_channel 2)) (Some (ex_queue [])) [])
   \<and> map_sum id fst
        (SendTo (ex_packet 1) ex_dest (ex_sim READY (Some (ex_channel 2)) (Some (ex_queue [])) []))
       = Inr True
   \<and> IsLinkUp (dev (ex_sim BUSY (Some (ex_channel 2)) (Some (ex_queue [])) []))
   \<and> SendTo (ex_packet 2) ex_dest (ex_sim BUSY (Some (ex_channel 2)) (Some (ex_queue [])) [])
       = Inr (True, ex_sim BUSY (Some (ex_channel 2)) (Some (ex_queue [ex_packet 2])) [])
   \<and> SendTo (ex_packet 3) ex_dest
         (ex_sim BUSY (Some (ex_channel 2)) (Some (ex_queue [ex_packet 2])) [])
       = Inr (False, ex_sim BUSY (Some (ex_channel 2)) (Some (ex_queue [ex_packet 2])) [])"
  using
    SendTo_ready_or_busy
      [of "ex_sim READY (Some (ex_channel 2)) (Some (ex_queue [])) []" "ex_queue []"
          "ex_packet 1" ex_dest]
    SendTo_ready_or_busy
      [of "ex_sim BUSY (Some (ex_channel 2)) (Some (ex_queue [])) []" "ex_queue []"
          "ex_packet 2" ex_dest]
    SendTo_ready_or_busy
      [of "ex_sim BUSY (Some (ex_channel 2)) (Some (ex_queue [ex_packet 2])) []"
          "ex_queue [ex_packet 2]" "ex_packet 3" ex_dest]
  by (simp add: model_defs)

section \<open>Completing a transmission\<close>

text \<open>Claim C4 as stated fails: \<^verbatim>\<open>TransmitComplete\<close> calls \<^verbatim>\<open>m_queue->Dequeue\<close>
  without looking at the pointer. A device that is attached and sends one packet without
  ever getting a queue is BUSY, and the \<^verbatim>\<open>TransmitComplete\<close> invoked then neither makes
  the device READY nor starts another transmission: it ends in the call through the null
  pointer, and so does the run in which the simulator fires that callback.\<close>

theorem TransmitComplete_transitions_counterexample:
  "exec [CallAttach (Some (ex_channel 1)), CallSendTo (ex_packet 1) ex_dest]
        (Simulation_init 10000000)
     = Inr (ex_sim BUSY (Some (ex_channel 2)) None
              [(2 / 1000, ReceiveEvent (ex_packet 1)), (3 / 1000, TransmitCompleteEvent)])
   \<and> m_txMachineState
        (dev (ex_sim BUSY (Some (ex_channel 2)) None
                [(2 / 1000, ReceiveEvent (ex_packet 1)), (3 / 1000, TransmitCompleteEvent)]))
        = BUSY
   \<and> TransmitComplete
        (ex_sim BUSY (Some (ex_channel 2)) None
           [(2 / 1000, ReceiveEvent (ex_packet 1)), (3 / 1000, TransmitCompleteEvent)])
        = Inl NullPointer
   \<and> exec [CallAttach (Some (ex_channel 1)), CallSendTo (ex_packet 1) ex_dest,
            RunOneEvent, RunOneEvent]
        (Simulation_init 10000000)
        = Inl NullPointer"
  by (simp add: model_defs)

text \<open>
  Claim C4. (amended) A \<^verbatim>\<open>TransmitComplete\<close> on a BUSY device that has a queue attached
  either finds the queue empty, and then only sets the state to READY; or finds a first
  packet \<open>p\<close>, and then is \<^verbatim>\<open>TransmitStart(p)\<close> on the READY device whose queue has lost
  exactly \<open>p\<close>: with a channel attached it returns with the state BUSY, the rest of the
  queue in place and one more completion pending.
\<close>

theorem TransmitComplete_transitions:
  assumes "m_txMachineState (dev w) = BUSY" and "m_queue (dev w) = Some q"
  shows "(q_packets q = [] \<longrightarrow>
            TransmitComplete w = Inr (w\<lparr>dev := (dev w)\<lparr>m_txMachineState := READY\<rparr>\<rparr>))
       \<and> (\<forall>p ps. q_packets q = p # ps \<longrightarrow>
            TransmitComplete w =
              map_sum id snd
                (TransmitStart p
                   (w\<lparr>dev := (dev w)\<lparr>m_txMachineState := READY,
                                       m_queue := Some (q\<lparr>q_packets := ps\<rparr>)\<rparr>\<rparr>))
          \<and> (\<forall>ch. m_channel (dev w) = Some ch \<longrightarrow>
                (\<exists>w'. TransmitComplete w = Inr w'
                   \<and> dev w' = (dev w)\<lparr>m_txMachineState := BUSY,
                                       m_queue := Some (q\<lparr>q_packets := ps\<rparr>)\<rparr>
                   \<and> pendingTransmitComplete w' = Suc (pendingTransmitComplete w))))"
proof (intro conjI impI allI)
  assume "q_packets q = []"
  then show "TransmitComplete w = Inr (w\<lparr>dev := (dev w)\<lparr>m_txMachineState := READY\<rparr>\<rparr>)"
    by (rule TransmitComplete_empty[OF assms])
next
  fix p ps
  assume "q_packets q = p # ps"
  then show "TransmitComplete w =
      map_sum id snd
        (TransmitStart p
           (w\<lparr>dev := (dev w)\<lparr>m_txMachineState := READY,
                               m_queue := Some (q\<lparr>q_packets := ps\<rparr>)\<rparr>\<rparr>))"
    by (rule TransmitComplete_nonempty[OF assms])
next
  fix p ps ch
  assume ne: "q_packets q = p # ps" and ch: "m_channel (dev w) = Some ch"
  let ?w1 = "w\<lparr>dev := (dev w)\<lparr>m_txMachineState := READY,
                                m_queue := Some (q\<lparr>q_packets := ps\<rparr>)\<rparr>\<rparr>"
  have ready: "m_txMachineState (dev ?w1) = READY" and ch1: "m_channel (dev ?w1) = Some ch"
    using ch by simp_all
  obtain r w' where ts: "TransmitStart p ?w1 = Inr (r, w')"
    using TransmitStart_READY[OF ready ch1, of p] by (metis surj_pair)
  have "TransmitComplete w = Inr w'"
    by (simp only: TransmitComplete_nonempty[OF assms ne] ts map_sum.simps snd_conv)
  moreover have "dev w' = (dev w)\<lparr>m_txMachineState := BUSY,
                                   m_queue := Some (q\<lparr>q_packets := ps\<rparr>)\<rparr>"
    using TransmitStart_Inr(2)[OF ts] by simp
  moreover have "pendingTransmitComplete w' = Suc (pendingTransmitComplete w)"
    using TransmitStart_Inr(4)[OF ts] by (simp add: pendingTransmitComplete_def)
  ultimately show "\<exists>w'. TransmitComplete w = Inr w'
      \<and> dev w' = (dev w)\<lparr>m_txMachineState := BUSY,
                          m_queue := Some (q\<lparr>q_packets := ps\<rparr>)\<rparr>
      \<and> pendingTransmitComplete w' = Suc (pendingTransmitComplete w)"
    by blast
qed

text \<open>With an empty queue the device becomes READY; with one packet queued it stays BUSY,
  the queue is emptied and one completion is pending.\<close>

theorem TransmitComplete_transitions_witness:
  "TransmitComplete
       (ex_sim BUSY (Some (ex_channel 2)) (Some (ex_queue [])) [])
     = Inr (ex_sim READY (Some (ex_channel 2)) (Some (ex_queue [])) [])
   \<and> (\<exists>w'. TransmitComplete
                (ex_sim BUSY (Some (ex_channel 2)) (Some (ex_queue [ex_packet 2])) []) = Inr w'
          \<and> dev w' = dev (ex_sim BUSY (Some (ex_channel 2)) (Some (ex_queue [])) [])
          \<and> pendingTransmitComplete w' = 1)"
  using
    TransmitComplete_transitions
      [of "ex_sim BUSY (Some (ex_channel 2)) (Some (ex_queue [])) []" "ex_queue []"]
    TransmitComplete_transitions
      [of "ex_sim BUSY (Some (ex_channel 2)) (Some (ex_queue [ex_packet 2])) []"
          "ex_queue [ex_packet 2]"]
  by (simp add: model_defs pendingTransmitComplete_def)

section \<open>One completion pending at a time\<close>

lemma step_transmitCompleteInv:
  assumes "step c w = Inr w'" and "transmitCompleteInv w"
  shows "transmitCompleteInv w'"
proof (cases c)
  case (CallSendTo p dest)
  show ?thesis
  proof (cases "m_txMachineState (dev w)")
    case READY
    with assms(1) CallSendTo obtain r where "TransmitStart p w = Inr (r, w')"
      by (auto simp add: SendTo_def split: if_splits sum.splits)
    from TransmitStart_Inr[OF this] assms(2) READY show ?thesis
      by (simp add: transmitCompleteInv_def)
  next
    case BUSY
    with assms CallSendTo show ?thesis
      by (auto simp add: SendTo_def transmitCompleteInv_def pendingTransmitComplete_def
          split: if_splits sum.splits option.splits prod.splits)
  qed
next
  case RunOneEvent
  show ?thesis
  proof (cases "sim_events w")
    case Nil
    with assms RunOneEvent show ?thesis by (simp add: Simulator_RunOneEvent_def)
  next
    case (Cons e rest)
    obtain t ev where e: "e = (t, ev)" by (cases e)
    let ?w1 = "w\<lparr>sim_now := t, sim_events := rest\<rparr>"
    show ?thesis
    proof (cases ev)
      case TransmitCompleteEvent
      with assms(1) RunOneEvent Cons e have tc: "TransmitComplete ?w1 = Inr w'"
        by (simp add: Simulator_RunOneEvent_def)
      have "pendingTransmitComplete w = Suc (pendingTransmitComplete ?w1)"
        using Cons e TransmitCompleteEvent by (simp add: pendingTransmitComplete_def)
      moreover have "m_txMachineState (dev w) = BUSY"
        using TransmitComplete_Inr_busy[OF tc] by simp
      ultimately have "pendingTransmitComplete ?w1 = 0"
        using assms(2) by (simp add: transmitCompleteInv_def)
      with TransmitComplete_Inr_pending[OF tc] show ?thesis
        by (simp add: transmitCompleteInv_def)
    next
      case (ReceiveEvent p)
      with assms RunOneEvent Cons e show ?thesis
        by (auto simp add: Simulator_RunOneEvent_def transmitCompleteInv_def
            pendingTransmitComplete_def)
    qed
  qed
next
  case (CallSetDataRate bps)
  with assms(1) have "w' = SetDataRate bps w" by simp
  with assms(2) show ?thesis
    by (simp add: transmitCompleteInv_def pendingTransmitComplete_def SetDataRate_def)
next
  case (CallSetInterframeGap t)
  with assms(1) have "w' = SetInterframeGap t w" by simp
  with assms(2) show ?thesis
    by (simp add: transmitCompleteInv_def pendingTransmitComplete_def SetInterframeGap_def)
next
  case (CallAttach ch)
  with assms(1) obtain c where "ch = Some c" and "Attach (Some c) w = Inr (True, w')"
    by (cases ch) (simp_all add: Attach_None Attach_Some)
  then have "w' = snd (True, w')" and "Inr (True, w') = Attach (Some c) w" by simp_all
  with assms(2) show ?thesis
    by (simp add: Attach_Some transmitCompleteInv_def pendingTransmitComplete_def)
next
  case (CallAddQueue q)
  with assms(1) have "w' = AddQueue q w" by simp
  with assms(2) show ?thesis
    by (simp add: transmitCompleteInv_def pendingTransmitComplete_def AddQueue_def)
qed

lemma exec_transmitCompleteInv:
  "exec cs w = Inr w' \<Longrightarrow> transmitCompleteInv w \<Longrightarrow> transmitCompleteInv w'"
proof (induction cs arbitrary: w)
  case Nil
  then show ?case by simp
next
  case (Cons c cs)
  then show ?case
    by (cases "step c w") (auto dest: step_transmitCompleteInv)
qed

lemma init_transmitCompleteInv: "transmitCompleteInv (Simulation_init rate)"
  by (simp add: transmitCompleteInv_def pendingTransmitComplete_def Simulation_init_def
      PointToPointNetDevice_new_def)

text \<open>
  Claim C7. In every state a freshly constructed device reaches through any sequence of
  public calls and fired events, at most one \<^verbatim>\<open>TransmitComplete\<close> callback is scheduled
  and not yet fired.
\<close>

theorem at_most_one_pending_TransmitComplete:
  assumes "exec cs (Simulation_init rate) = Inr w"
  shows "pendingTransmitComplete w \<le> 1"
  using exec_transmitCompleteInv[OF assms init_transmitCompleteInv]
  by (simp add: transmitCompleteInv_def split: if_splits)

text \<open>After three sends in a row exactly one completion is pending.\<close>

theorem at_most_one_pending_TransmitComplete_witness:
  "\<exists>w. exec ex_calls (Simulation_init 10000000) = Inr w
       \<and> pendingTransmitComplete w = 1 \<and> pendingTransmitComplete w \<le> 1"
proof -
  have "\<exists>w. exec ex_calls (Simulation_init 10000000) = Inr w \<and> pendingTransmitComplete w = 1"
    by (simp add: model_defs pendingTransmitComplete_def)
  then obtain w where w: "exec ex_calls (Simulation_init 10000000) = Inr w"
    and p: "pendingTransmitComplete w = 1" by blast
  from at_most_one_pending_TransmitComplete[OF w] w p show ?thesis by blast
qed

section \<open>READY means nothing queued\<close>

lemma TransmitComplete_queueEmptyWhenReady:
  assumes "TransmitComplete w = Inr w'"
  shows "queueEmptyWhenReady w'"
  using assms
proof (cases rule: TransmitComplete_Inr_cases)
  case (empty q)
  then show ?thesis by (simp add: queueEmptyWhenReady_def)
next
  case (nonempty q p ps r)
  from TransmitStart_Inr(2)[OF nonempty(3)] show ?thesis
    by (simp add: queueEmptyWhenReady_def)
qed

lemma step_queueEmptyWhenReady:
  assumes "step c w = Inr w'" and "queueEmptyWhenReady w" and "addsEmptyQueue c"
  shows "queueEmptyWhenReady w'"
proof (cases c)
  case (CallSetDataRate bps)
  with assms(1) have "w' = SetDataRate bps w" by simp
  with assms(2) show ?thesis
    by (simp add: queueEmptyWhenReady_def SetDataRate_def)
next
  case (CallSetInterframeGap t)
  with assms(1) have "w' = SetInterframeGap t w" by simp
  with assms(2) show ?thesis
    by (simp add: queueEmptyWhenReady_def SetInterframeGap_def)
next
  case (CallAttach ch)
  with assms(1) obtain c where "ch = Some c" and "Attach (Some c) w = Inr (True, w')"
    by (cases ch) (simp_all add: Attach_None Attach_Some)
  then have "w' = snd (True, w')" and "Inr (True, w') = Attach (Some c) w" by simp_all
  with assms(2) show ?thesis
    by (simp add: Attach_Some queueEmptyWhenReady_def)
next
  case (CallAddQueue qo)
  with assms(1) have w': "w' = AddQueue qo w" by simp
  show ?thesis
  proof (cases qo)
    case None
    then show ?thesis by (simp add: w' queueEmptyWhenReady_def AddQueue_def)
  next
    case (Some q)
    with assms(3) CallAddQueue have "q_packets q = []" by simp
    with Some show ?thesis by (simp add: w' queueEmptyWhenReady_def AddQueue_def)
  qed
next
  case (CallSendTo p dest)
  show ?thesis
  proof (cases "m_txMachineState (dev w)")
    case READY
    with assms(1) CallSendTo obtain r where "TransmitStart p w = Inr (r, w')"
      by (auto simp add: SendTo_def split: if_splits sum.splits)
    from TransmitStart_Inr(2)[OF this] show ?thesis
      by (simp add: queueEmptyWhenReady_def)
  next
    case BUSY
    with assms(1) CallSendTo have "m_txMachineState (dev w') = BUSY"
      by (auto simp add: SendTo_def split: if_splits sum.splits option.splits prod.splits)
    then show ?thesis by (simp add: queueEmptyWhenReady_def)
  qed
next
  case RunOneEvent
  show ?thesis
  proof (cases "sim_events w")
    case Nil
    with assms RunOneEvent show ?thesis by (simp add: Simulator_RunOneEvent_def)
  next
    case (Cons e rest)
    obtain t ev where e: "e = (t, ev)" by (cases e)
    show ?thesis
    proof (cases ev)
      case TransmitCompleteEvent
      with assms(1) RunOneEvent Cons e
      have "TransmitComplete (w\<lparr>sim_now := t, sim_events := rest\<rparr>) = Inr w'"
        by (simp add: Simulator_RunOneEvent_def)
      then show ?thesis by (rule TransmitComplete_queueEmptyWhenReady)
    next
      case (ReceiveEvent p)
      with assms(1) RunOneEvent Cons e have "w' = w\<lparr>sim_now := t, sim_events := rest\<rparr>"
        by (simp add: Simulator_RunOneEvent_def)
      with assms(2) show ?thesis by (simp add: queueEmptyWhenReady_def)
    qed
  qed
qed

lemma exec_queueEmptyWhenReady:
  "exec cs w = Inr w' \<Longrightarrow> queueEmptyWhenReady w \<Longrightarrow> list_all addsEmptyQueue cs \<Longrightarrow>
   queueEmptyWhenReady w'"
proof (induction cs arbitrary: w)
  case Nil
  then show ?case by simp
next
  case (Cons c cs)
  show ?case
  proof (cases "step c w")
    case (Inl e)
    with Cons.prems(1) show ?thesis by simp
  next
    case (Inr w1)
    with Cons.prems have "exec cs w1 = Inr w'" and "queueEmptyWhenReady w1"
      and "list_all addsEmptyQueue cs"
      by (simp_all add: step_queueEmptyWhenReady)
    then show ?thesis by (rule Cons.IH)
  qed
qed

lemma init_queueEmptyWhenReady: "queueEmptyWhenReady (Simulation_init rate)"
  by (simp add: queueEmptyWhenReady_def Simulation_init_def PointToPointNetDevice_new_def)

text \<open>Claim C5 as stated fails: \<^verbatim>\<open>AddQueue\<close> stores whatever queue it is given and
  leaves the transmitter state alone, so a device that is handed a queue holding a packet is
  READY with a non-empty queue.\<close>

theorem queue_empty_when_READY_counterexample:
  "exec [CallAddQueue (Some \<lparr>q_packets = [\<lparr>p_uid = 1, p_size = 1250\<rparr>], q_maxPackets = None\<rparr>)]
        (Simulation_init 10000000)
     = Inr (AddQueue (Some \<lparr>q_packets = [\<lparr>p_uid = 1, p_size = 1250\<rparr>], q_maxPackets = None\<rparr>)
              (Simulation_init 10000000))
   \<and> m_txMachineState
       (dev (AddQueue (Some \<lparr>q_packets = [\<lparr>p_uid = 1, p_size = 1250\<rparr>], q_maxPackets = None\<rparr>)
              (Simulation_init 10000000))) = READY
   \<and> m_queue
       (dev (AddQueue (Some \<lparr>q_packets = [\<lparr>p_uid = 1, p_size = 1250\<rparr>], q_maxPackets = None\<rparr>)
              (Simulation_init 10000000)))
       = Some \<lparr>q_packets = [\<lparr>p_uid = 1, p_size = 1250\<rparr>], q_maxPackets = None\<rparr>
   \<and> \<not> queueEmptyWhenReady
       (AddQueue (Some \<lparr>q_packets = [\<lparr>p_uid = 1, p_size = 1250\<rparr>], q_maxPackets = None\<rparr>)
              (Simulation_init 10000000))"
  by (simp add: AddQueue_def Simulation_init_def PointToPointNetDevice_new_def
      queueEmptyWhenReady_def)

text \<open>
  Claim C5. (amended) In every state a freshly constructed device reaches through any
  sequence of public calls and fired events in which each \<^verbatim>\<open>AddQueue\<close> installs an empty
  queue (or none), a READY transmitter has an empty queue; and every \<^verbatim>\<open>TransmitComplete\<close>
  that returns, from whatever state, leaves the device BUSY or with an empty queue.
\<close>

theorem queue_empty_when_READY:
  "(exec cs (Simulation_init rate) = Inr w \<and> list_all addsEmptyQueue cs
      \<longrightarrow> queueEmptyWhenReady w)
   \<and> (TransmitComplete w0 = Inr w1 \<longrightarrow> queueEmptyWhenReady w1)"
  using exec_queueEmptyWhenReady[OF _ init_queueEmptyWhenReady] TransmitComplete_queueEmptyWhenReady
  by blast

text \<open>A queue is added, the link attached, three packets sent (the third is dropped) and
  all events run: the device ends READY with an empty queue.\<close>

theorem queue_empty_when_READY_witness:
  "list_all addsEmptyQueue (ex_calls @ [RunOneEvent, RunOneEvent, RunOneEvent, RunOneEvent])
   \<and> (\<exists>w. exec (ex_calls @ [RunOneEvent, RunOneEvent, RunOneEvent, RunOneEvent])
                (Simulation_init 10000000) = Inr w
          \<and> m_txMachineState (dev w) = READY
          \<and> queueEmptyWhenReady w)
   \<and> TransmitComplete (ex_sim BUSY (Some (ex_channel 2)) (Some (ex_queue [])) [])
        = Inr (ex_sim READY (Some (ex_channel 2)) (Some (ex_queue [])) [])
   \<and> queueEmptyWhenReady (ex_sim READY (Some (ex_channel 2)) (Some (ex_queue [])) [])"
proof -
  let ?cs = "ex_calls @ [RunOneEvent, RunOneEvent, RunOneEvent, RunOneEvent]"
  have all: "list_all addsEmptyQueue ?cs" by simp
  have "\<exists>w. exec ?cs (Simulation_init 10000000) = Inr w \<and> m_txMachineState (dev w) = READY"
    by (simp add: model_defs)
  then obtain w where w: "exec ?cs (Simulation_init 10000000) = Inr w"
    and r: "m_txMachineState (dev w) = READY" by blast
  have tc: "TransmitComplete (ex_sim BUSY (Some (ex_channel 2)) (Some (ex_queue [])) [])
        = Inr (ex_sim READY (Some (ex_channel 2)) (Some (ex_queue [])) [])"
    by (simp add: model_defs)
  from queue_empty_when_READY[of ?cs 10000000 w] w all have "queueEmptyWhenReady w" by blast
  moreover from queue_empty_when_READY[of "[]" 0 "Simulation_init 0"
      "ex_sim BUSY (Some (ex_channel 2)) (Some (ex_queue [])) []"
      "ex_sim READY (Some (ex_channel 2)) (Some (ex_queue [])) []"] tc
  have "queueEmptyWhenReady (ex_sim READY (Some (ex_channel 2)) (Some (ex_queue [])) [])"
    by blast
  ultimately show ?thesis using all w r tc by blast
qed

section \<open>Assertions\<close>

lemma step_not_AssertMustBeReady: "step c w \<noteq> Inl AssertMustBeReady"
proof (cases c)
  case (CallAttach ch)
  then show ?thesis by (cases ch) (simp_all add: Attach_None Attach_Some)
next
  case (CallSendTo p dest)
  then show ?thesis
    using SendTo_not_AssertMustBeReady[of p dest w]
    by (cases "SendTo p dest w") (simp_all split: prod.splits)
next
  case RunOneEvent
  then show ?thesis
    using TransmitComplete_not_AssertMustBeReady
    by (simp add: Simulator_RunOneEvent_def Let_def split: list.splits prod.splits Event.splits)
qed simp_all

lemma exec_not_AssertMustBeReady: "exec cs w \<noteq> Inl AssertMustBeReady"
proof (induction cs arbitrary: w)
  case Nil
  then show ?case by simp
next
  case (Cons c cs)
  then show ?case
    using step_not_AssertMustBeReady[of c w] by (cases "step c w") simp_all
qed

text \<open>
  Claim C6. A \<^verbatim>\<open>SendTo\<close> while the link is down fails the link-up assertion, and a
  \<^verbatim>\<open>TransmitStart\<close> while BUSY fails the must-be-READY assertion. Used as intended these
  failures cannot happen: a \<^verbatim>\<open>SendTo\<close> with the link up fails neither assertion, a
  \<^verbatim>\<open>TransmitComplete\<close> never fails the must-be-READY assertion, and no sequence of
  public calls and fired events on a fresh device ends in it.
\<close>

theorem assertions_abort_and_are_unreachable:
  "(\<not> IsLinkUp (dev w) \<longrightarrow> SendTo p dest w = Inl AssertLinkUp)
   \<and> (m_txMachineState (dev w) = BUSY \<longrightarrow> TransmitStart p w = Inl AssertMustBeReady)
   \<and> (IsLinkUp (dev w) \<longrightarrow>
        SendTo p dest w \<noteq> Inl AssertLinkUp \<and> SendTo p dest w \<noteq> Inl AssertMustBeReady)
   \<and> TransmitComplete w \<noteq> Inl AssertMustBeReady
   \<and> exec cs (Simulation_init rate) \<noteq> Inl AssertMustBeReady"
proof (intro conjI impI)
  assume "\<not> IsLinkUp (dev w)"
  then show "SendTo p dest w = Inl AssertLinkUp" by (simp add: SendTo_def)
next
  assume "m_txMachineState (dev w) = BUSY"
  then show "TransmitStart p w = Inl AssertMustBeReady" by (rule TransmitStart_BUSY)
next
  assume up: "IsLinkUp (dev w)"
  show "SendTo p dest w \<noteq> Inl AssertLinkUp"
  proof (cases "m_txMachineState (dev w)")
    case READY
    with up show ?thesis by (simp add: SendTo_READY TransmitStart_not_AssertLinkUp)
  next
    case BUSY
    with up show ?thesis by (simp add: SendTo_def split: option.splits prod.splits)
  qed
next
  show "SendTo p dest w \<noteq> Inl AssertMustBeReady" by (rule SendTo_not_AssertMustBeReady)
next
  show "TransmitComplete w \<noteq> Inl AssertMustBeReady"
    by (rule TransmitComplete_not_AssertMustBeReady)
next
  show "exec cs (Simulation_init rate) \<noteq> Inl AssertMustBeReady"
    by (rule exec_not_AssertMustBeReady)
qed

text \<open>A fresh device has its link down; an attached BUSY device has it up.\<close>

theorem assertions_abort_and_are_unreachable_witness:
  "\<not> IsLinkUp (dev (Simulation_init 10000000))
   \<and> SendTo (ex_packet 1) ex_dest (Simulation_init 10000000) = Inl AssertLinkUp
   \<and> m_txMachineState (dev (ex_sim BUSY (Some (ex_channel 2)) (Some (ex_queue [])) [])) = BUSY
   \<and> TransmitStart (ex_packet 1) (ex_sim BUSY (Some (ex_channel 2)) (Some (ex_queue [])) [])
        = Inl AssertMustBeReady
   \<and> IsLinkUp (dev (ex_sim BUSY (Some (ex_channel 2)) (Some (ex_queue [])) []))
   \<and> SendTo (ex_packet 1) ex_dest (ex_sim BUSY (Some (ex_channel 2)) (Some (ex_queue [])) [])
        \<noteq> Inl AssertLinkUp
   \<and> SendTo (ex_packet 1) ex_dest (ex_sim BUSY (Some (ex_channel 2)) (Some (ex_queue [])) [])
        \<noteq> Inl AssertMustBeReady
   \<and> exec ex_calls (Simulation_init 10000000) \<noteq> Inl AssertMustBeReady"
  using
    assertions_abort_and_are_unreachable
      [of "Simulation_init 10000000" "ex_packet 1" ex_dest ex_calls 10000000]
    assertions_abort_and_are_unreachable
      [of "ex_sim BUSY (Some (ex_channel 2)) (Some (ex_queue [])) []" "ex_packet 1" ex_dest
          ex_calls 10000000]
  by (simp add: IsLinkUp_def Simulation_init_def PointToPointNetDevice_new_def)

section \<open>A device without a queue\<close>

lemma step_keeps_null_queue:
  assumes "step c w = Inr w'" and "m_queue (dev w) = None" and "\<not> isAddQueue c"
  shows "m_queue (dev w') = None"
proof (cases c)
  case (CallSetDataRate bps)
  with assms(1) have "w' = SetDataRate bps w" by simp
  with assms(2) show ?thesis by (simp add: SetDataRate_def)
next
  case (CallSetInterframeGap t)
  with assms(1) have "w' = SetInterframeGap t w" by simp
  with assms(2) show ?thesis by (simp add: SetInterframeGap_def)
next
  case (CallAttach ch)
  with assms(1) obtain c where "ch = Some c" and "Attach (Some c) w = Inr (True, w')"
    by (cases ch) (simp_all add: Attach_None Attach_Some)
  then have "w' = snd (True, w')" and "Inr (True, w') = Attach (Some c) w" by simp_all
  with assms(2) show ?thesis by (simp add: Attach_Some)
next
  case (CallAddQueue q)
  with assms(3) show ?thesis by simp
next
  case (CallSendTo p dest)
  show ?thesis
  proof (cases "m_txMachineState (dev w)")
    case READY
    with assms(1) CallSendTo obtain r where "TransmitStart p w = Inr (r, w')"
      by (auto simp add: SendTo_def split: if_splits sum.splits)
    from TransmitStart_Inr(2)[OF this] assms(2) show ?thesis by simp
  next
    case BUSY
    with assms(1,2) CallSendTo show ?thesis
      by (simp add: SendTo_def split: if_splits)
  qed
next
  case RunOneEvent
  show ?thesis
  proof (cases "sim_events w")
    case Nil
    with assms RunOneEvent show ?thesis by (simp add: Simulator_RunOneEvent_def)
  next
    case (Cons e rest)
    obtain t ev where e: "e = (t, ev)" by (cases e)
    show ?thesis
    proof (cases ev)
      case TransmitCompleteEvent
      with assms(1) RunOneEvent Cons e
      have tc: "TransmitComplete (w\<lparr>sim_now := t, sim_events := rest\<rparr>) = Inr w'"
        by (simp add: Simulator_RunOneEvent_def)
      then show ?thesis
        using assms(2) by (simp add: TransmitComplete_def Let_def split: if_splits)
    next
      case (ReceiveEvent p)
      with assms(1) RunOneEvent Cons e have "w' = w\<lparr>sim_now := t, sim_events := rest\<rparr>"
        by (simp add: Simulator_RunOneEvent_def)
      with assms(2) show ?thesis by simp
    qed
  qed
qed

lemma exec_keeps_null_queue:
  "exec cs w = Inr w' \<Longrightarrow> m_queue (dev w) = None \<Longrightarrow> \<not> list_ex isAddQueue cs \<Longrightarrow>
   m_queue (dev w') = None"
proof (induction cs arbitrary: w)
  case Nil
  then show ?case by simp
next
  case (Cons c cs)
  show ?case
  proof (cases "step c w")
    case (Inl e)
    with Cons.prems(1) show ?thesis by simp
  next
    case (Inr w1)
    with Cons.prems have "exec cs w1 = Inr w'" and "m_queue (dev w1) = None"
      and "\<not> list_ex isAddQueue cs"
      by (simp_all add: step_keeps_null_queue)
    then show ?thesis by (rule Cons.IH)
  qed
qed

text \<open>
  Claim C10. The constructor stores a null queue, and \<^verbatim>\<open>SendTo\<close> checks only the link:
  with the link up and no queue, a READY \<^verbatim>\<open>SendTo\<close> goes on to \<^verbatim>\<open>TransmitStart\<close>, a
  BUSY \<^verbatim>\<open>SendTo\<close> calls through the null pointer, and so does a \<^verbatim>\<open>TransmitComplete\<close>
  on a BUSY device. When \<^verbatim>\<open>AddQueue\<close> was never called, every \<^verbatim>\<open>TransmitComplete\<close>
  callback the simulator fires ends in that null-pointer call.
\<close>

theorem null_queue_is_dereferenced:
  "m_queue (dev (Simulation_init rate)) = None
   \<and> (IsLinkUp (dev w) \<and> m_queue (dev w) = None \<and> m_txMachineState (dev w) = READY \<longrightarrow>
        SendTo p dest w = TransmitStart p w)
   \<and> (IsLinkUp (dev w) \<and> m_queue (dev w) = None \<and> m_txMachineState (dev w) = BUSY \<longrightarrow>
        SendTo p dest w = Inl NullPointer)
   \<and> (m_queue (dev w) = None \<and> m_txMachineState (dev w) = BUSY \<longrightarrow>
        TransmitComplete w = Inl NullPointer)
   \<and> (exec cs (Simulation_init rate) = Inr v \<and> \<not> list_ex isAddQueue cs
        \<and> sim_events v = (t, TransmitCompleteEvent) # rest \<longrightarrow>
        Simulator_RunOneEvent v = Inl NullPointer)"
proof (intro conjI impI)
  show "m_queue (dev (Simulation_init rate)) = None"
    by (simp add: Simulation_init_def PointToPointNetDevice_new_def)
next
  assume "IsLinkUp (dev w) \<and> m_queue (dev w) = None \<and> m_txMachineState (dev w) = READY"
  then show "SendTo p dest w = TransmitStart p w" by (simp add: SendTo_READY)
next
  assume "IsLinkUp (dev w) \<and> m_queue (dev w) = None \<and> m_txMachineState (dev w) = BUSY"
  then show "SendTo p dest w = Inl NullPointer" by (simp add: SendTo_def)
next
  assume "m_queue (dev w) = None \<and> m_txMachineState (dev w) = BUSY"
  then show "TransmitComplete w = Inl NullPointer" by (simp add: TransmitComplete_null_queue)
next
  assume a: "exec cs (Simulation_init rate) = Inr v \<and> \<not> list_ex isAddQueue cs
        \<and> sim_events v = (t, TransmitCompleteEvent) # rest"
  then have run: "exec cs (Simulation_init rate) = Inr v" and noq: "\<not> list_ex isAddQueue cs"
    and ev: "sim_events v = (t, TransmitCompleteEvent) # rest"
    by simp_all
  have "m_queue (dev (Simulation_init rate)) = None"
    by (simp add: Simulation_init_def PointToPointNetDevice_new_def)
  then have q: "m_queue (dev v) = None"
    using noq by (rule exec_keeps_null_queue[OF run])
  have "transmitCompleteInv v"
    using run init_transmitCompleteInv by (rule exec_transmitCompleteInv)
  moreover have "0 < pendingTransmitComplete v"
    using ev by (simp add: pendingTransmitComplete_def)
  ultimately have busy: "m_txMachineState (dev v) = BUSY"
    by (simp add: transmitCompleteInv_def split: if_splits)
  have "Simulator_RunOneEvent v = TransmitComplete (v\<lparr>sim_now := t, sim_events := rest\<rparr>)"
    using ev by (simp add: Simulator_RunOneEvent_def)
  also have "\<dots> = Inl NullPointer"
    using busy q by (simp add: TransmitComplete_null_queue)
  finally show "Simulator_RunOneEvent v = Inl NullPointer" .
qed

text \<open>A device is attached and sends one packet without ever getting a queue: the
  completion that fires at 3 ms calls through the null pointer.\<close>

theorem null_queue_is_dereferenced_witness:
  "IsLinkUp (dev (ex_sim BUSY (Some (ex_channel 2)) None [(3 / 1000, TransmitCompleteEvent)]))
   \<and> SendTo (ex_packet 2) ex_dest
         (ex_sim BUSY (Some (ex_channel 2)) None [(3 / 1000, TransmitCompleteEvent)])
       = Inl NullPointer
   \<and> TransmitComplete (ex_sim BUSY (Some (ex_channel 2)) None []) = Inl NullPointer
   \<and> SendTo (ex_packet 1) ex_dest (ex_sim READY (Some (ex_channel 2)) None [])
       = TransmitStart (ex_packet 1) (ex_sim READY (Some (ex_channel 2)) None [])
   \<and> \<not> list_ex isAddQueue [CallAttach (Some (ex_channel 0)), CallSendTo (ex_packet 1) ex_dest]
   \<and> (\<exists>v. exec [CallAttach (Some (ex_channel 0)), CallSendTo (ex_packet 1) ex_dest]
               (Simulation_init 10000000) = Inr v
          \<and> sim_events v = [(3 / 1000, TransmitCompleteEvent)]
          \<and> Simulator_RunOneEvent v = Inl NullPointer)"
proof -
  let ?cs = "[CallAttach (Some (ex_channel 0)), CallSendTo (ex_packet 1) ex_dest]"
  let ?wb = "ex_sim BUSY (Some (ex_channel 2)) None [(3 / 1000, TransmitCompleteEvent)]"
  have "\<exists>v. exec ?cs (Simulation_init 10000000) = Inr v
          \<and> sim_events v = [(3 / 1000, TransmitCompleteEvent)]"
    by (simp add: model_defs)
  then obtain v where v: "exec ?cs (Simulation_init 10000000) = Inr v"
    and ev: "sim_events v = [(3 / 1000, TransmitCompleteEvent)]" by blast
  have noq: "\<not> list_ex isAddQueue ?cs" by simp
  have run: "Simulator_RunOneEvent v = Inl NullPointer"
    using null_queue_is_dereferenced[of 10000000 ?wb "ex_packet 2" ex_dest ?cs v "3 / 1000" "[]"]
      v ev noq by blast
  have rest: "IsLinkUp (dev ?wb)
      \<and> SendTo (ex_packet 2) ex_dest ?wb = Inl NullPointer
      \<and> TransmitComplete (ex_sim BUSY (Some (ex_channel 2)) None []) = Inl NullPointer
      \<and> SendTo (ex_packet 1) ex_dest (ex_sim READY (Some (ex_channel 2)) None [])
          = TransmitStart (ex_packet 1) (ex_sim READY (Some (ex_channel 2)) None [])"
    by (simp add: model_defs)
  from rest noq v ev run show ?thesis by blast
qed

section \<open>Router identifiers are dense from 0.0.0.1\<close>

lemma createRouters_ids:
  "map GetRouterId (fst (createRouters n env)) = map (\<lambda>i. routerId env + of_nat i) [0..<n]"
proof (induction n arbitrary: env)
  case 0
  then show ?case by simp
next
  case (Suc n)
  have "map GetRouterId (fst (createRouters (Suc n) env)) =
        routerId env # map GetRouterId (fst (createRouters n (env\<lparr>routerId := routerId env + 1\<rparr>)))"
    by (simp add: GlobalRouter_new_def AllocateRouterId_def GetRouterId_def split: prod.splits)
  also have "\<dots> = routerId env # map (\<lambda>i. routerId env + 1 + of_nat i) [0..<n]"
    by (simp add: Suc.IH)
  also have "\<dots> = map (\<lambda>i. routerId env + of_nat i) (0 # map Suc [0..<n])"
    by (simp add: add.assoc comp_def)
  also have "0 # map Suc [0..<n] = [0..<Suc n]"
    by (simp add: upt_conv_Cons map_Suc_upt del: upt_Suc)
  finally show ?case .
qed

lemma distinct_of_distinct_map: "distinct (map f xs) \<Longrightarrow> distinct xs"
  by (induction xs) auto

lemma unat_one_plus:
  assumes "i < n" and "n < 2 ^ 32"
  shows "unat (1 + of_nat i :: 32 word) = Suc i"
proof -
  have "1 + of_nat i = (of_nat (Suc i) :: 32 word)" by simp
  moreover have "Suc i < 2 ^ LENGTH(32)" using assms by simp
  then have "unat (of_nat (Suc i) :: 32 word) = Suc i"
    by (simp only: unat_of_nat) simp
  ultimately show ?thesis by (simp only:)
qed

text \<open>
  Claim C8. The routers constructed in one run, in creation order, carry the Router IDs
  \<open>0.0.0.1, 0.0.0.2, ...\<close>: the \<open>i\<close>-th router has ID \<open>i\<close> (dense and increasing by
  one), and the IDs are pairwise distinct, for any number of routers below \<open>2^32\<close>.
\<close>

theorem router_ids_dense_from_one:
  assumes "n < 2 ^ 32"
  shows "map (\<lambda>r. unat (GetRouterId r)) (fst (createRouters n RoutingEnvironment_init))
           = [1..<Suc n]
       \<and> distinct (map GetRouterId (fst (createRouters n RoutingEnvironment_init)))"
proof -
  let ?rs = "fst (createRouters n RoutingEnvironment_init)"
  have ids: "map GetRouterId ?rs = map (\<lambda>i. 1 + of_nat i) [0..<n]"
    by (simp add: createRouters_ids RoutingEnvironment_init_def)
  have "map (\<lambda>r. unat (GetRouterId r)) ?rs = map unat (map GetRouterId ?rs)"
    by (simp add: comp_def)
  also have "\<dots> = map (\<lambda>i. unat (1 + of_nat i :: 32 word)) [0..<n]"
    by (simp add: ids comp_def)
  also have "\<dots> = map Suc [0..<n]"
    using assms by (intro map_cong refl) (simp add: unat_one_plus)
  also have "\<dots> = [1..<Suc n]"
    by (simp add: map_Suc_upt)
  finally have u: "map (\<lambda>r. unat (GetRouterId r)) ?rs = [1..<Suc n]" .
  have "distinct (map unat (map GetRouterId ?rs))"
    using u by (simp add: comp_def)
  then have "distinct (map GetRouterId ?rs)"
    by (rule distinct_of_distinct_map)
  with u show ?thesis by simp
qed

text \<open>Three routers get the IDs 1, 2 and 3.\<close>

theorem router_ids_dense_from_one_witness:
  "(3::nat) < 2 ^ 32
   \<and> map (\<lambda>r. unat (GetRouterId r)) (fst (createRouters 3 RoutingEnvironment_init)) = [1, 2, 3]
   \<and> distinct (map GetRouterId (fst (createRouters 3 RoutingEnvironment_init)))"
proof -
  have "[1..<Suc 3] = [1, 2, 3]" by (simp add: upt_rec)
  with router_ids_dense_from_one[of 3] show ?thesis by simp
qed

end
